theory Spec2Isabelle
  imports Main "HOL-Library.Word"
begin

section \<open>Element types\<close>

text \<open>
  The class template \<open>multiply_const_generic<type>\<close> of
  \<open>lib/multiply_const_v.cc\<close> is instantiated at eight element types. The six
  integer ones are machine words, and \<open>std::complex<T>\<close> is a pair of a real and an
  imaginary part. The product of two words wraps around, which is what storing the
  promoted product back into an \<open>int8_t\<close>, \<open>int16_t\<close> or \<open>int32_t\<close> gives on the
  two's complement targets the library is built for.
\<close>

type_synonym int8_t = "8 word"
type_synonym int16_t = "16 word"
type_synonym int32_t = "32 word"

text \<open>\<open>int\<close> and \<open>size_t\<close> of the source; \<open>sint\<close> reads the first one.\<close>

type_synonym c_int = "32 word"
type_synonym size_t = "64 word"

datatype 'a cplx = Cplx (re: 'a) (im: 'a)

instantiation cplx :: (zero) zero
begin

definition zero_cplx :: "'a cplx" where
  "zero_cplx = Cplx 0 0"

instance ..

end

instantiation cplx :: (ring) times
begin

definition times_cplx :: "'a cplx \<Rightarrow> 'a cplx \<Rightarrow> 'a cplx" where
  "times_cplx x y = Cplx (re x * re y - im x * im y) (re x * im y + im x * re y)"

instance ..

end

type_synonym sc8 = "int8_t cplx"
type_synonym sc16 = "int16_t cplx"
type_synonym sc32 = "int32_t cplx"

text \<open>
  What the template needs from its element type \<open>'a\<close>: its size in bytes and the two
  conversions between \<open>'a\<close> and the canonical \<open>std::complex<double>\<close>, here \<open>'c\<close>. The
  conversions are the overloads \<open>gr_num_to_complex_double\<close> and
  \<open>gr_complex_double_to_num\<close> of a header that is not part of this file; the class
  only copies canonical values and hands them to the conversion, so both stay
  parameters.
\<close>

record ('a, 'c) native_type =
  sizeof :: size_t
  gr_num_to_complex_double :: "'a \<Rightarrow> 'c"
  gr_complex_double_to_num :: "'c \<Rightarrow> 'a"

section \<open>Failures\<close>

text \<open>
  \<open>Invalid_argument\<close> is the \<open>std::invalid_argument\<close> thrown by \<open>_set_const\<close>, with its
  message. \<open>Undefined_behaviour\<close> marks the accesses C++ leaves undefined: an index
  past the end of a buffer, and \<open>front()\<close> of an empty vector.
\<close>

datatype error = Invalid_argument string | Undefined_behaviour

section \<open>The operator\<close>

text \<open>
  \<open>volk_work_type\<close>: item count, input buffer, output buffer and a pointer to the
  constants; the result is the output buffer after the call and the returned count.
  The block has one input and one output port, so \<open>input_items\<close> and \<open>output_items\<close>
  stand for \<open>input_items[0]\<close> and \<open>output_items[0]\<close>, two separate buffers.
\<close>

type_synonym 'a volk_work_type =
  "c_int \<Rightarrow> 'a list \<Rightarrow> 'a list \<Rightarrow> 'a list \<Rightarrow> error + ('a list \<times> c_int)"

text \<open>
  The external routines \<open>volk_32fc_s32fc_multiply_32fc_a\<close> and
  \<open>volk_32f_s32f_multiply_32f_a\<close>: output buffer, input buffer, scalar and
  \<open>unsigned int num_points\<close> give the output buffer after the call.
\<close>

type_synonym 'a volk_kernel = "'a list \<Rightarrow> 'a list \<Rightarrow> 'a \<Rightarrow> 32 word \<Rightarrow> 'a list"

definition mult_fc32_work :: "'a volk_kernel \<Rightarrow> 'a volk_work_type" where
  "mult_fc32_work volk_32fc_s32fc_multiply_32fc_a noutput_items input_items output_items vals =
     (case vals of
        [] \<Rightarrow> Inl Undefined_behaviour
      | scalar # _ \<Rightarrow>
          Inr (volk_32fc_s32fc_multiply_32fc_a output_items input_items scalar noutput_items,
               noutput_items))"

definition mult_f32_work :: "'a volk_kernel \<Rightarrow> 'a volk_work_type" where
  "mult_f32_work volk_32f_s32f_multiply_32f_a noutput_items input_items output_items vals =
     (case vals of
        [] \<Rightarrow> Inl Undefined_behaviour
      | scalar # _ \<Rightarrow>
          Inr (volk_32f_s32f_multiply_32f_a output_items input_items scalar noutput_items,
               noutput_items))"

text \<open>
  The members \<open>_original_val\<close>, \<open>_val\<close> and \<open>_volk_work\<close> (an empty \<open>boost::function\<close>
  is \<open>None\<close>), and the output multiple of the base class, \<open>None\<close> until
  \<open>set_output_multiple\<close> is called.
\<close>

record ('a, 'c) multiply_const_generic =
  original_val :: "'c list"
  val :: "'a list"
  volk_work :: "'a volk_work_type option"
  output_multiple :: "c_int option"

definition set_output_multiple ::
  "c_int \<Rightarrow> ('a, 'c) multiply_const_generic \<Rightarrow> ('a, 'c) multiply_const_generic" where
  "set_output_multiple multiple this = this\<lparr>output_multiple := Some multiple\<rparr>"

text \<open>\<open>std::max\<close> on \<open>int\<close> and \<open>std::vector::resize\<close>.\<close>

definition std_max :: "c_int \<Rightarrow> c_int \<Rightarrow> c_int" where
  "std_max a b = (if a <s b then b else a)"

definition resize :: "nat \<Rightarrow> 'a::zero list \<Rightarrow> 'a list" where
  "resize n xs = take n xs @ replicate (n - length xs) 0"

subsection \<open>\<open>_set_const\<close> and \<open>get_const\<close>\<close>

text \<open>The conversion loop of \<open>_set_const\<close>, from index \<open>i\<close> on.\<close>

function set_const_loop ::
  "('a, 'c) native_type \<Rightarrow> 'c list \<Rightarrow> nat \<Rightarrow> 'a list \<Rightarrow> 'a list" where
  "set_const_loop T v i vals =
     (if i < length v
      then set_const_loop T v (Suc i) (vals[i := gr_complex_double_to_num T (v ! i)])
      else vals)"
  by pat_completeness auto
termination
  by (relation "measure (\<lambda>(T, v, i, vals). length v - i)") auto

declare set_const_loop.simps [simp del]

text \<open>
  \<open>_set_const\<close> returns nothing or throws; either way the object is left as the
  statements executed so far have made it, so the model returns the outcome together
  with the object.
\<close>

definition priv_set_const ::
  "('a, 'c) native_type \<Rightarrow> 'c list \<Rightarrow> ('a, 'c) multiply_const_generic \<Rightarrow>
     (error + unit) \<times> ('a, 'c) multiply_const_generic" where
  "priv_set_const T v this =
     (let this1 = this\<lparr>original_val := v\<rparr> in
      if length v \<noteq> length (val this1)
      then (Inl (Invalid_argument ''set_const called with the wrong length''), this1)
      else (Inr (), this1\<lparr>val := set_const_loop T v 0 (val this1)\<rparr>))"

definition get_const :: "('a, 'c) multiply_const_generic \<Rightarrow> 'c list" where
  "get_const this = original_val this"

text \<open>
  Modelled from the spec: the member template \<open>set_const\<close> of the header
  \<open>gnuradio/extras/multiply_const.h\<close>, which the constructor calls with the initial
  vector in the element type. The initial constant vector is stored in its canonical
  form, so each element is widened and the result handed to \<open>_set_const\<close>.
\<close>

definition set_const ::
  "('a, 'c) native_type \<Rightarrow> 'a list \<Rightarrow> ('a, 'c) multiply_const_generic \<Rightarrow>
     (error + unit) \<times> ('a, 'c) multiply_const_generic" where
  "set_const T vec this = priv_set_const T (map (gr_num_to_complex_double T) vec) this"

subsection \<open>Construction\<close>

text \<open>
  The constructor, with the result of \<open>volk_get_alignment()\<close> as its first argument.
  An exception of \<open>set_const\<close> leaves the constructor, and no object exists then.
\<close>

definition new_multiply_const_generic ::
  "size_t \<Rightarrow> ('a::zero, 'c) native_type \<Rightarrow> 'a list \<Rightarrow> 'a volk_work_type option \<Rightarrow>
     error + ('a, 'c) multiply_const_generic" where
  "new_multiply_const_generic volk_get_alignment T vec vw =
     (let this0 = \<lparr>original_val = [], val = [], volk_work = vw, output_multiple = None\<rparr>;
          this1 = this0\<lparr>val := resize (length vec) (val this0)\<rparr>
      in case set_const T vec this1 of
           (Inl e, _) \<Rightarrow> Inl e
         | (Inr _, this2) \<Rightarrow>
             (if vw \<noteq> None
              then let alignment_multiple = (ucast (volk_get_alignment div sizeof T) :: c_int)
                   in Inr (set_output_multiple (std_max 1 alignment_multiple) this2)
              else Inr this2))"

subsection \<open>\<open>work\<close>\<close>

text \<open>
  The two loops of the scalar path, from index \<open>i\<close> on. The index is a \<open>size_t\<close> below
  \<open>n_nums\<close>, so its increment never wraps. Reading or writing past the end of a
  buffer is undefined, and so is \<open>i % _val.size()\<close> for an empty \<open>_val\<close>.
\<close>

function work_loop_vlen1 ::
  "'a::times \<Rightarrow> nat \<Rightarrow> nat \<Rightarrow> 'a list \<Rightarrow> 'a list \<Rightarrow> error + 'a list" where
  "work_loop_vlen1 v i n_nums input_items out =
     (if i < n_nums
      then (if i < length input_items \<and> i < length out
            then work_loop_vlen1 v (Suc i) n_nums input_items (out[i := input_items ! i * v])
            else Inl Undefined_behaviour)
      else Inr out)"
  by pat_completeness auto
termination
  by (relation "measure (\<lambda>(v, i, n_nums, input_items, out). n_nums - i)") auto

declare work_loop_vlen1.simps [simp del]

function work_loop_general ::
  "'a::times list \<Rightarrow> nat \<Rightarrow> nat \<Rightarrow> 'a list \<Rightarrow> 'a list \<Rightarrow> error + 'a list" where
  "work_loop_general vals i n_nums input_items out =
     (if i < n_nums
      then (if i < length input_items \<and> i < length out \<and> vals \<noteq> []
            then work_loop_general vals (Suc i) n_nums input_items
                   (out[i := input_items ! i * vals ! (i mod length vals)])
            else Inl Undefined_behaviour)
      else Inr out)"
  by pat_completeness auto
termination
  by (relation "measure (\<lambda>(vals, i, n_nums, input_items, out). n_nums - i)") auto

declare work_loop_general.simps [simp del]

text \<open>
  \<open>noutput_items * _val.size()\<close> is computed in \<open>size_t\<close>: the \<open>int\<close> is sign-extended
  and the product wraps at 64 bits. The bound function takes an \<open>int\<close>, which keeps
  the low 32 bits. \<open>work\<close> assigns no member, so the object comes back as it was.
\<close>

definition n_nums_of :: "c_int \<Rightarrow> 'a list \<Rightarrow> size_t" where
  "n_nums_of noutput_items vals = scast noutput_items * of_nat (length vals)"

definition work ::
  "c_int \<Rightarrow> 'a list \<Rightarrow> 'a list \<Rightarrow> ('a::times, 'c) multiply_const_generic \<Rightarrow>
     (error + ('a list \<times> c_int)) \<times> ('a, 'c) multiply_const_generic" where
  "work noutput_items input_items output_items this =
     (case volk_work this of
        Some f \<Rightarrow>
          (case f (ucast (n_nums_of noutput_items (val this))) input_items output_items (val this) of
             Inl e \<Rightarrow> (Inl e, this)
           | Inr (out, _) \<Rightarrow> (Inr (out, noutput_items), this))
      | None \<Rightarrow>
          (let n_nums = unat (n_nums_of noutput_items (val this)) in
           if length (val this) = 1
           then (case work_loop_vlen1 (val this ! 0) 0 n_nums input_items output_items of
                   Inl e \<Rightarrow> (Inl e, this)
                 | Inr out \<Rightarrow> (Inr (out, noutput_items), this))
           else (case work_loop_general (val this) 0 n_nums input_items output_items of
                   Inl e \<Rightarrow> (Inl e, this)
                 | Inr out \<Rightarrow> (Inr (out, noutput_items), this))))"

subsection \<open>Factory functions\<close>

definition make_fc32_fc32 ::
  "'a volk_kernel \<Rightarrow> size_t \<Rightarrow> ('a::zero, 'c) native_type \<Rightarrow> 'a list \<Rightarrow>
     error + ('a, 'c) multiply_const_generic" where
  "make_fc32_fc32 volk_32fc_s32fc_multiply_32fc_a volk_get_alignment T vec =
     new_multiply_const_generic volk_get_alignment T vec
       (Some (mult_fc32_work volk_32fc_s32fc_multiply_32fc_a))"

definition make_f32_f32 ::
  "'a volk_kernel \<Rightarrow> size_t \<Rightarrow> ('a::zero, 'c) native_type \<Rightarrow> 'a list \<Rightarrow>
     error + ('a, 'c) multiply_const_generic" where
  "make_f32_f32 volk_32f_s32f_multiply_32f_a volk_get_alignment T vec =
     new_multiply_const_generic volk_get_alignment T vec
       (Some (mult_f32_work volk_32f_s32f_multiply_32f_a))"

text \<open>The macro \<open>make_factory_function\<close> and its six uses.\<close>

definition make_factory_function ::
  "size_t \<Rightarrow> ('a::zero, 'c) native_type \<Rightarrow> 'a list \<Rightarrow> error + ('a, 'c) multiply_const_generic" where
  "make_factory_function volk_get_alignment T vec =
     new_multiply_const_generic volk_get_alignment T vec None"

definition make_sc32_sc32 ::
  "size_t \<Rightarrow> (sc32, 'c) native_type \<Rightarrow> sc32 list \<Rightarrow> error + (sc32, 'c) multiply_const_generic" where
  "make_sc32_sc32 = make_factory_function"

definition make_sc16_sc16 ::
  "size_t \<Rightarrow> (sc16, 'c) native_type \<Rightarrow> sc16 list \<Rightarrow> error + (sc16, 'c) multiply_const_generic" where
  "make_sc16_sc16 = make_factory_function"

definition make_sc8_sc8 ::
  "size_t \<Rightarrow> (sc8, 'c) native_type \<Rightarrow> sc8 list \<Rightarrow> error + (sc8, 'c) multiply_const_generic" where
  "make_sc8_sc8 = make_factory_function"

definition make_s32_s32 ::
  "size_t \<Rightarrow> (int32_t, 'c) native_type \<Rightarrow> int32_t list \<Rightarrow>
     error + (int32_t, 'c) multiply_const_generic" where
  "make_s32_s32 = make_factory_function"

definition make_s16_s16 ::
  "size_t \<Rightarrow> (int16_t, 'c) native_type \<Rightarrow> int16_t list \<Rightarrow>
     error + (int16_t, 'c) multiply_const_generic" where
  "make_s16_s16 = make_factory_function"

definition make_s8_s8 ::
  "size_t \<Rightarrow> (int8_t, 'c) native_type \<Rightarrow> int8_t list \<Rightarrow>
     error + (int8_t, 'c) multiply_const_generic" where
  "make_s8_s8 = make_factory_function"

section \<open>Concrete instances\<close>

text \<open>
  Modelled from the spec: the two conversions of \<open>int16_t\<close>, on canonical constants
  whose real and imaginary parts are whole numbers, written as \<open>int\<close>. Widening keeps
  the value and sets the imaginary part to zero; narrowing takes the real component
  and keeps its low 16 bits.
\<close>

definition s16_type :: "(int16_t, int cplx) native_type" where
  "s16_type = \<lparr>sizeof = 2,
     gr_num_to_complex_double = (\<lambda>x. Cplx (sint x) 0),
     gr_complex_double_to_num = (\<lambda>c. word_of_int (re c))\<rparr>"

text \<open>The \<open>int16_t\<close> block with \<open>vlen = 2\<close> and the constants 3 and 5.\<close>

definition block_3_5 :: "(int16_t, int cplx) multiply_const_generic" where
  "block_3_5 = \<lparr>original_val = [Cplx 3 0, Cplx 5 0], val = [3, 5],
     volk_work = None, output_multiple = None\<rparr>"

text \<open>
  An element type with exact arithmetic for the accelerated path: complex numbers with
  whole parts, eight bytes wide like \<open>std::complex<float>\<close>, converted by the identity.
\<close>

definition exact_type :: "(int cplx, int cplx) native_type" where
  "exact_type = \<lparr>sizeof = 8,
     gr_num_to_complex_double = (\<lambda>x. x),
     gr_complex_double_to_num = (\<lambda>c. c)\<rparr>"

text \<open>
  Modelled from the spec: an external multiply routine that does what the spec asks of
  it, the scalar-broadcast multiply of the first \<open>num_points\<close> elements, the rest of
  the output buffer left as it was.
\<close>

definition volk_multiply_generic :: "'a::times volk_kernel" where
  "volk_multiply_generic out input_items scalar num_points =
     map (\<lambda>x. x * scalar) (take (unat num_points) input_items) @ drop (unat num_points) out"

text \<open>
  The block that \<open>make_fc32_fc32\<close> builds over \<open>exact_type\<close> from the constants
  \<open>i\<close> and \<open>7 + 7i\<close>, for an alignment of 16 bytes.
\<close>

definition block_i_7 :: "(int cplx, int cplx) multiply_const_generic" where
  "block_i_7 = \<lparr>original_val = [Cplx 0 1, Cplx 7 7], val = [Cplx 0 1, Cplx 7 7],
     volk_work = Some (mult_fc32_work volk_multiply_generic), output_multiple = Some 2\<rparr>"

text \<open>
  Two blocks over \<open>exact_type\<close> with the single constant \<open>i\<close>: one with the
  \<open>std::complex<float>\<close> adapter bound, one on the scalar path.
\<close>

definition block_i_accelerated :: "(int cplx, int cplx) multiply_const_generic" where
  "block_i_accelerated = \<lparr>original_val = [Cplx 0 1], val = [Cplx 0 1],
     volk_work = Some (mult_fc32_work volk_multiply_generic), output_multiple = Some 2\<rparr>"

definition block_i_scalar :: "(int cplx, int cplx) multiply_const_generic" where
  "block_i_scalar = \<lparr>original_val = [Cplx 0 1], val = [Cplx 0 1],
     volk_work = None, output_multiple = None\<rparr>"

section \<open>Auxiliary facts about the loops and the item count\<close>

lemma le_Suc_between: "\<not> Suc i \<le> k \<Longrightarrow> i \<le> k \<Longrightarrow> k = i"
  by arith

lemma length_set_const_loop: "length (set_const_loop T v i vals) = length vals"
  by (induction T v i vals rule: set_const_loop.induct)
     (subst set_const_loop.simps, simp)

lemma set_const_loop_nth:
  "k < length vals \<Longrightarrow>
   set_const_loop T v i vals ! k =
     (if i \<le> k \<and> k < length v then gr_complex_double_to_num T (v ! k) else vals ! k)"
proof (induction T v i vals rule: set_const_loop.induct)
  case (1 T v i vals)
  show ?case
  proof (cases "i < length v")
    case True
    with 1 show ?thesis
      by (subst set_const_loop.simps) (auto simp: nth_list_update dest: le_Suc_between)
  next
    case False
    then show ?thesis
      by (subst set_const_loop.simps) auto
  qed
qed

lemma set_const_loop_map:
  assumes "length vals = length v"
  shows "set_const_loop T v 0 vals = map (gr_complex_double_to_num T) v"
  by (rule nth_equalityI) (simp_all add: length_set_const_loop set_const_loop_nth assms)

lemma work_loop_general_ok:
  assumes "n_nums \<le> length input_items" "n_nums \<le> length out" "vals \<noteq> []"
  shows "\<exists>out'. work_loop_general vals i n_nums input_items out = Inr out' \<and>
           length out' = length out \<and>
           (\<forall>k < length out. out' ! k =
              (if i \<le> k \<and> k < n_nums then input_items ! k * vals ! (k mod length vals)
               else out ! k))"
  using assms
proof (induction vals i n_nums input_items out rule: work_loop_general.induct)
  case (1 vals i n_nums input_items out)
  show ?case
  proof (cases "i < n_nums")
    case True
    then have inb: "i < length input_items \<and> i < length out \<and> vals \<noteq> []"
      using "1.prems" by simp
    from "1.IH" [OF True inb] "1.prems"
    obtain out' where o: "work_loop_general vals (Suc i) n_nums input_items
            (out[i := input_items ! i * vals ! (i mod length vals)]) = Inr out'"
      "length out' = length out"
      "\<forall>k < length out. out' ! k =
          (if Suc i \<le> k \<and> k < n_nums then input_items ! k * vals ! (k mod length vals)
           else (out[i := input_items ! i * vals ! (i mod length vals)]) ! k)"
      by auto
    have "work_loop_general vals i n_nums input_items out = Inr out'"
      using True inb o(1) by (subst work_loop_general.simps) simp
    moreover have "\<forall>k < length out. out' ! k =
              (if i \<le> k \<and> k < n_nums then input_items ! k * vals ! (k mod length vals)
               else out ! k)"
      using o(3) True by (auto simp: nth_list_update dest: le_Suc_between)
    ultimately show ?thesis using o(2) by blast
  next
    case False
    then show ?thesis
      by (subst work_loop_general.simps) auto
  qed
qed

lemma unat_scast_nonneg:
  fixes n :: c_int
  assumes "0 \<le>s n"
  shows "unat (scast n :: size_t) = nat (sint n)"
proof -
  have nn: "0 \<le> sint n"
    using assms by (simp add: word_sle_eq)
  have "sint n < 2 ^ 31"
    using sint_lt [of n] by simp
  moreover have "(2::int) ^ 31 < 2 ^ 64"
    by simp
  ultimately have lt: "sint n < 2 ^ 64"
    by (rule less_trans)
  have "uint (scast n :: size_t) = take_bit LENGTH(64) (sint n)"
    unfolding scast_eq by (rule uint_word_of_int_eq)
  also have "\<dots> = sint n"
    using nn lt by (simp add: take_bit_int_eq_self)
  finally have "uint (scast n :: size_t) = sint n" .
  then show ?thesis
    by (simp only: unat_eq_nat_uint)
qed

lemma unat_n_nums_of:
  assumes "0 \<le>s noutput_items"
    and "nat (sint noutput_items) * length vals < 2 ^ 64"
  shows "unat (n_nums_of noutput_items vals) = nat (sint noutput_items) * length vals"
proof -
  have "unat (n_nums_of noutput_items vals) =
        (nat (sint noutput_items) * (length vals mod 2 ^ 64)) mod 2 ^ 64"
    by (simp add: n_nums_of_def unat_word_ariths unat_scast_nonneg [OF assms(1)] unat_of_nat)
  also have "\<dots> = (nat (sint noutput_items) * length vals) mod 2 ^ 64"
    by (simp add: mod_mult_right_eq)
  finally show ?thesis using assms(2) by simp
qed

lemma length_resize: "length (resize n xs) = n"
  by (simp add: resize_def)

lemma priv_set_const_ok:
  assumes "length v = length (val this)"
  shows "priv_set_const T v this =
           (Inr (), this\<lparr>original_val := v, val := map (gr_complex_double_to_num T) v\<rparr>)"
  using assms by (simp add: priv_set_const_def Let_def set_const_loop_map)

lemma priv_set_const_wrong_length:
  assumes "length v \<noteq> length (val this)"
  shows "priv_set_const T v this =
           (Inl (Invalid_argument ''set_const called with the wrong length''),
            this\<lparr>original_val := v\<rparr>)"
  using assms by (simp add: priv_set_const_def Let_def)

lemma new_multiply_const_generic_eq:
  "new_multiply_const_generic a T vec vw =
     Inr \<lparr>original_val = map (gr_num_to_complex_double T) vec,
          val = map (gr_complex_double_to_num T) (map (gr_num_to_complex_double T) vec),
          volk_work = vw,
          output_multiple =
            (if vw \<noteq> None then Some (std_max 1 (ucast (a div sizeof T))) else None)\<rparr>"
  by (simp add: new_multiply_const_generic_def set_const_def Let_def length_resize
      priv_set_const_ok set_output_multiple_def)

lemma make_s16_s16_3_5: "make_s16_s16 16 s16_type [3, 5] = Inr block_3_5"
  by (simp add: make_s16_s16_def make_factory_function_def new_multiply_const_generic_eq
      s16_type_def block_3_5_def)

lemma sint_ucast_small:
  fixes q :: size_t
  assumes "unat q < 2 ^ 31"
  shows "sint (ucast q :: c_int) = int (unat q)"
proof -
  have "sint (ucast q :: c_int) = signed_take_bit (LENGTH(32) - Suc 0) (uint q)"
    by (rule signed_ucast_eq)
  also have "\<dots> = signed_take_bit 31 (uint q)"
    by simp
  also have "\<dots> = uint q"
  proof (rule signed_take_bit_int_eq_self)
    show "- (2 ^ 31) \<le> uint q"
      by (rule order_trans [of _ 0]) simp_all
    have "int (unat q) < int (2 ^ 31)"
      using assms by (simp only: of_nat_less_iff)
    then show "uint q < 2 ^ 31"
      by (simp only: uint_nat) simp
  qed
  finally show ?thesis
    by (simp only: uint_nat)
qed

lemma sint_std_max: "sint (std_max a b) = max (sint a) (sint b)"
  by (simp add: std_max_def word_sless_alt max_def)

lemma work_loop_vlen1_general:
  assumes "length vals = 1"
  shows "work_loop_vlen1 (vals ! 0) i n_nums input_items out =
         work_loop_general vals i n_nums input_items out"
  using assms
proof (induction vals i n_nums input_items out rule: work_loop_general.induct)
  case (1 vals i n_nums input_items out)
  show ?case
  proof (cases "i < n_nums \<and> i < length input_items \<and> i < length out")
    case True
    have ne: "vals \<noteq> []"
      using "1.prems" by auto
    have m: "i mod length vals = 0"
      using "1.prems" by simp
    have "work_loop_vlen1 (vals ! 0) (Suc i) n_nums input_items
                 (out[i := input_items ! i * vals ! (i mod length vals)]) =
               work_loop_general vals (Suc i) n_nums input_items
                 (out[i := input_items ! i * vals ! (i mod length vals)])"
      using "1.IH" "1.prems" True ne by simp
    then show ?thesis
      using True ne
      by (subst work_loop_vlen1.simps, subst work_loop_general.simps) (simp add: m)
  next
    case False
    then show ?thesis
      by (subst work_loop_vlen1.simps, subst work_loop_general.simps) auto
  qed
qed

lemma work_loop_general_error:
  "work_loop_general vals i n_nums input_items out = Inl e \<Longrightarrow> e = Undefined_behaviour"
proof (induction vals i n_nums input_items out rule: work_loop_general.induct)
  case (1 vals i n_nums input_items out)
  from "1.prems" show ?case
    by (subst (asm) work_loop_general.simps) (auto split: if_splits intro: "1.IH")
qed

lemma work_scalar_path:
  fixes this :: "('a::times, 'c) multiply_const_generic"
  assumes "volk_work this = None"
    and "val this \<noteq> []"
    and "0 \<le>s noutput_items"
    and "nat (sint noutput_items) * length (val this) < 2 ^ 64"
    and "nat (sint noutput_items) * length (val this) \<le> length input_items"
    and "nat (sint noutput_items) * length (val this) \<le> length output_items"
  shows "\<exists>out. work noutput_items input_items output_items this =
                 (Inr (out, noutput_items), this) \<and>
               length out = length output_items \<and>
               (\<forall>k < nat (sint noutput_items) * length (val this).
                  out ! k = input_items ! k * val this ! (k mod length (val this)))"
proof -
  let ?n = "nat (sint noutput_items) * length (val this)"
  have n: "unat (n_nums_of noutput_items (val this)) = ?n"
    using assms(3,4) by (rule unat_n_nums_of)
  obtain out where
    run: "work_loop_general (val this) 0 ?n input_items output_items = Inr out" and
    len: "length out = length output_items" and
    nth: "\<forall>k < length output_items. out ! k =
            (if 0 \<le> k \<and> k < ?n
             then input_items ! k * val this ! (k mod length (val this))
             else output_items ! k)"
    using work_loop_general_ok [OF assms(5,6,2), of 0] by blast
  have fast: "length (val this) = 1 \<Longrightarrow>
      work_loop_vlen1 (val this ! 0) 0 ?n input_items output_items = Inr out"
    using run by (simp add: work_loop_vlen1_general)
  have "work noutput_items input_items output_items this = (Inr (out, noutput_items), this)"
    using assms(1) run fast by (simp add: work_def n Let_def)
  moreover have "\<forall>k < ?n. out ! k = input_items ! k * val this ! (k mod length (val this))"
    using nth assms(6) by auto
  ultimately show ?thesis
    using len by blast
qed

lemma work_accelerated_path:
  assumes "volk_work this = Some (mult_fc32_work volk) \<or>
           volk_work this = Some (mult_f32_work volk)"
    and "val this \<noteq> []"
  shows "work noutput_items input_items output_items this =
           (Inr (volk output_items input_items (val this ! 0)
                   (ucast (n_nums_of noutput_items (val this))), noutput_items), this)"
  using assms
  by (cases "val this") (auto simp: work_def mult_fc32_work_def mult_f32_work_def)

lemma work_accelerated_path_empty:
  assumes "volk_work this = Some (mult_fc32_work volk) \<or>
           volk_work this = Some (mult_f32_work volk)"
    and "val this = []"
  shows "work noutput_items input_items output_items this = (Inl Undefined_behaviour, this)"
  using assms
  by (auto simp: work_def mult_fc32_work_def mult_f32_work_def)

lemma snd_work: "snd (work noutput_items input_items output_items this) = this"
  by (simp add: work_def Let_def split: option.splits sum.splits prod.splits)

lemma work_no_invalid_argument:
  assumes "volk_work this = None \<or> volk_work this = Some (mult_fc32_work volk) \<or>
           volk_work this = Some (mult_f32_work volk)"
  shows "fst (work noutput_items input_items output_items this) \<noteq> Inl (Invalid_argument msg)"
proof (cases "volk_work this")
  case None
  show ?thesis
  proof (cases "length (val this) = 1")
    case True
    then show ?thesis
      using None
      by (auto simp: work_def Let_def work_loop_vlen1_general split: sum.splits
               dest: work_loop_general_error)
  next
    case False
    then show ?thesis
      using None
      by (auto simp: work_def Let_def split: sum.splits dest: work_loop_general_error)
  qed
next
  case (Some f)
  with assms have k: "volk_work this = Some (mult_fc32_work volk) \<or>
           volk_work this = Some (mult_f32_work volk)"
    by simp
  show ?thesis
  proof (cases "val this = []")
    case True
    then show ?thesis
      by (simp add: work_accelerated_path_empty [OF k])
  next
    case False
    then show ?thesis
      by (simp add: work_accelerated_path [OF k])
  qed
qed

lemma unat_count:
  assumes "0 \<le>s noutput_items"
    and "nat (sint noutput_items) * length vals < 2 ^ 31"
  shows "unat (ucast (n_nums_of noutput_items vals) :: 32 word) =
           nat (sint noutput_items) * length vals"
proof -
  let ?p = "nat (sint noutput_items) * length vals"
  have "(2::nat) ^ 31 < 2 ^ 64"
    by simp
  with assms(2) have "?p < 2 ^ 64"
    by (rule less_trans)
  with assms(1) have n: "unat (n_nums_of noutput_items vals) = ?p"
    by (rule unat_n_nums_of)
  have "(2::nat) ^ 31 < 2 ^ 32"
    by simp
  with assms(2) have lt: "?p < 2 ^ 32"
    by (rule less_trans)
  have "unat (ucast (n_nums_of noutput_items vals) :: 32 word) =
          take_bit LENGTH(32) (unat (n_nums_of noutput_items vals))"
    by (rule unsigned_ucast_eq)
  also have "\<dots> = take_bit 32 ?p"
    by (simp only: n) simp
  also have "\<dots> = ?p"
    using lt by (rule take_bit_nat_eq_self)
  finally show ?thesis .
qed

lemma volk_multiply_generic_nth:
  assumes "k < unat m" and "unat m \<le> length inp"
  shows "volk_multiply_generic out inp s m ! k = inp ! k * s"
  using assms by (simp add: volk_multiply_generic_def nth_append)

lemma make_fc32_fc32_i_7:
  "make_fc32_fc32 volk_multiply_generic 16 exact_type [Cplx 0 1, Cplx 7 7] = Inr block_i_7"
  by (simp add: make_fc32_fc32_def new_multiply_const_generic_eq exact_type_def block_i_7_def
      std_max_def word_sless_alt)

text \<open>
  What every block keeps for its whole life: the bound function and the length of the
  working constant. The factory functions fix both.
\<close>

lemma priv_set_const_keeps_volk_work:
  "volk_work (snd (priv_set_const T v this)) = volk_work this"
  by (simp add: priv_set_const_def Let_def)

lemma priv_set_const_keeps_vlen:
  "length (val (snd (priv_set_const T v this))) = length (val this)"
  by (simp add: priv_set_const_def Let_def length_set_const_loop)

lemma make_factory_function_block:
  "\<exists>this. make_factory_function a T vec = Inr this \<and> volk_work this = None \<and>
     length (val this) = length vec \<and> length (original_val this) = length vec"
  by (simp add: make_factory_function_def new_multiply_const_generic_eq)

lemma make_fc32_fc32_block:
  "\<exists>this. make_fc32_fc32 volk a T vec = Inr this \<and>
     volk_work this = Some (mult_fc32_work volk) \<and>
     length (val this) = length vec \<and> length (original_val this) = length vec"
  by (simp add: make_fc32_fc32_def new_multiply_const_generic_eq)

lemma make_f32_f32_block:
  "\<exists>this. make_f32_f32 volk a T vec = Inr this \<and>
     volk_work this = Some (mult_f32_work volk) \<and>
     length (val this) = length vec \<and> length (original_val this) = length vec"
  by (simp add: make_f32_f32_def new_multiply_const_generic_eq)

lemma nat_sint_lt_int_max:
  fixes n :: c_int
  shows "nat (sint n) < 2 ^ 31"
proof -
  have "sint n < 2 ^ 31"
    using sint_lt [of n] by simp
  then show ?thesis
    by (simp add: nat_less_iff)
qed

lemma work_scalar_vlen1:
  fixes this :: "('a::times, 'c) multiply_const_generic"
  assumes "volk_work this = None"
    and "val this = [c]"
    and "0 \<le>s noutput_items"
    and "nat (sint noutput_items) \<le> length input_items"
    and "nat (sint noutput_items) \<le> length output_items"
  shows "\<exists>out. work_loop_vlen1 c 0 (nat (sint noutput_items)) input_items output_items =
                 Inr out \<and>
               work noutput_items input_items output_items this =
                 (Inr (out, noutput_items), this) \<and>
               (\<forall>k < nat (sint noutput_items). out ! k = input_items ! k * c)"
proof -
  let ?n = "nat (sint noutput_items)"
  have "(2::nat) ^ 31 < 2 ^ 64"
    by simp
  with nat_sint_lt_int_max [of noutput_items] have "?n < 2 ^ 64"
    by (rule less_trans)
  then have "?n * length (val this) < 2 ^ 64"
    by (simp only: assms(2)) simp
  with assms(3) have "unat (n_nums_of noutput_items (val this)) = ?n * length (val this)"
    by (rule unat_n_nums_of)
  then have n: "unat (n_nums_of noutput_items [c]) = ?n"
    by (simp only: assms(2)) simp
  obtain out where
    run: "work_loop_general [c] 0 ?n input_items output_items = Inr out" and
    nth: "\<forall>k < length output_items. out ! k =
            (if 0 \<le> k \<and> k < ?n then input_items ! k * [c] ! (k mod length [c])
             else output_items ! k)"
    using work_loop_general_ok [OF assms(4,5), of "[c]" 0] by auto
  have fast: "work_loop_vlen1 c 0 ?n input_items output_items = Inr out"
    using run work_loop_vlen1_general [of "[c]" 0 ?n input_items output_items] by simp
  have "work noutput_items input_items output_items this = (Inr (out, noutput_items), this)"
    using assms(1) fast by (simp add: work_def assms(2) n)
  moreover have "\<forall>k < ?n. out ! k = input_items ! k * c"
    using nth assms(5) by auto
  ultimately show ?thesis
    using fast by blast
qed

section \<open>Properties of the operator\<close>

text \<open>
  C1, as the code behaves. \<open>_set_const\<close> assigns \<open>_original_val\<close> before it compares
  the lengths. On the block with the constants 3 and 5, a call with three values
  throws \<open>std::invalid_argument\<close> and leaves \<open>_val\<close> as it was, but \<open>get_const\<close> then
  returns the three rejected values and no longer the two installed ones.
\<close>

theorem set_const_wrong_length_overwrites_original:
  "priv_set_const s16_type [Cplx 1 0, Cplx 2 0, Cplx 3 0] block_3_5 =
     (Inl (Invalid_argument ''set_const called with the wrong length''),
      block_3_5\<lparr>original_val := [Cplx 1 0, Cplx 2 0, Cplx 3 0]\<rparr>) \<and>
   get_const block_3_5 = [Cplx 3 0, Cplx 5 0] \<and>
   get_const (snd (priv_set_const s16_type [Cplx 1 0, Cplx 2 0, Cplx 3 0] block_3_5)) =
     [Cplx 1 0, Cplx 2 0, Cplx 3 0] \<and>
   val (snd (priv_set_const s16_type [Cplx 1 0, Cplx 2 0, Cplx 3 0] block_3_5)) = [3, 5]"
  by (simp add: priv_set_const_def get_const_def block_3_5_def Let_def)

text \<open>
  C2, as the code behaves. The block built by \<open>make_s16_s16\<close> from the constants 3 and 5
  has two canonical and two working constants. After a \<open>_set_const\<close> call with three
  values, which throws, the canonical vector has length 3 and the working constant
  still has length 2: the rejected vector has been stored before the length check.
\<close>

theorem failed_set_const_breaks_length_invariant:
  "make_s16_s16 16 s16_type [3, 5] = Inr block_3_5 \<and>
   length (original_val block_3_5) = 2 \<and> length (val block_3_5) = 2 \<and>
   fst (priv_set_const s16_type [Cplx 1 0, Cplx 2 0, Cplx 3 0] block_3_5) =
     Inl (Invalid_argument ''set_const called with the wrong length'') \<and>
   length (original_val
     (snd (priv_set_const s16_type [Cplx 1 0, Cplx 2 0, Cplx 3 0] block_3_5))) = 3 \<and>
   length (val
     (snd (priv_set_const s16_type [Cplx 1 0, Cplx 2 0, Cplx 3 0] block_3_5))) = 2"
  by (simp add: make_s16_s16_3_5)
     (simp add: priv_set_const_def block_3_5_def Let_def)

text \<open>
  C3. On the scalar path (no function bound, as for the six integer and complex
  integer element types), for a block with \<open>vlen \<ge> 1\<close>, a non-negative
  \<open>noutput_items\<close> and buffers of at least \<open>noutput_items * vlen\<close> elements, a count
  that \<open>size_t\<close> can hold, \<open>work\<close> returns and leaves in the output buffer, at every
  flattened index \<open>k\<close> below \<open>noutput_items * vlen\<close>, the product of the input element
  at \<open>k\<close> and the working constant at \<open>k mod vlen\<close>.
\<close>

theorem work_scalar_path_correct:
  fixes this :: "('a::times, 'c) multiply_const_generic"
  assumes "volk_work this = None"
    and "1 \<le> length (val this)"
    and "0 \<le>s noutput_items"
    and "nat (sint noutput_items) * length (val this) < 2 ^ 64"
    and "nat (sint noutput_items) * length (val this) \<le> length input_items"
    and "nat (sint noutput_items) * length (val this) \<le> length output_items"
  shows "\<exists>out. work noutput_items input_items output_items this =
                 (Inr (out, noutput_items), this) \<and>
               length out = length output_items \<and>
               (\<forall>k < nat (sint noutput_items) * length (val this).
                  out ! k = input_items ! k * val this ! (k mod length (val this)))"
proof -
  from assms(2) have "val this \<noteq> []"
    by auto
  with assms(1) show ?thesis
    using assms(3-6) by (rule work_scalar_path)
qed

theorem work_scalar_path_correct_witness:
  "volk_work block_3_5 = None \<and> 1 \<le> length (val block_3_5) \<and> 0 \<le>s (3 :: c_int) \<and>
   nat (sint (3 :: c_int)) * length (val block_3_5) = 6 \<and>
   (\<exists>out. work 3 [1, 1, 2, 2, 3, 3] [0, 0, 0, 0, 0, 0] block_3_5 =
            (Inr (out, 3), block_3_5) \<and>
          length out = length [0, 0, 0, 0, 0, 0 :: int16_t] \<and>
          (\<forall>k < 6. out ! k = [1, 1, 2, 2, 3, 3] ! k * val block_3_5 ! (k mod 2))) \<and>
   work 3 [1, 1, 2, 2, 3, 3] [0, 0, 0, 0, 0, 0] block_3_5 =
     (Inr ([3, 5, 6, 10, 9, 15], 3), block_3_5)"
proof -
  have h1: "volk_work block_3_5 = None"
    by (simp add: block_3_5_def)
  have h2: "1 \<le> length (val block_3_5)"
    by (simp add: block_3_5_def)
  have h3: "0 \<le>s (3 :: c_int)"
    by (simp add: word_sle_eq)
  have p: "nat (sint (3 :: c_int)) * length (val block_3_5) = 6"
    by (simp add: block_3_5_def)
  have h4: "nat (sint (3 :: c_int)) * length (val block_3_5) < 2 ^ 64"
    by (simp only: p) simp
  have h5: "nat (sint (3 :: c_int)) * length (val block_3_5) \<le>
              length [1, 1, 2, 2, 3, 3 :: int16_t]"
    by (simp only: p) simp
  have h6: "nat (sint (3 :: c_int)) * length (val block_3_5) \<le>
              length [0, 0, 0, 0, 0, 0 :: int16_t]"
    by (simp only: p) simp
  have l: "length (val block_3_5) = 2"
    by (simp add: block_3_5_def)
  have p': "nat (sint (3 :: c_int)) * 2 = 6"
    by simp
  from work_scalar_path_correct [OF h1 h2 h3 h4 h5 h6]
  have "\<exists>out. work 3 [1, 1, 2, 2, 3, 3] [0, 0, 0, 0, 0, 0] block_3_5 =
            (Inr (out, 3), block_3_5) \<and>
          length out = length [0, 0, 0, 0, 0, 0 :: int16_t] \<and>
          (\<forall>k < 6. out ! k = [1, 1, 2, 2, 3, 3] ! k * val block_3_5 ! (k mod 2))"
    by (simp only: l p')
  moreover have "unat (n_nums_of (3 :: c_int) [3, 5 :: int16_t]) = 6"
    by (simp add: n_nums_of_def)
  then have "work 3 [1, 1, 2, 2, 3, 3] [0, 0, 0, 0, 0, 0] block_3_5 =
     (Inr ([3, 5, 6, 10, 9, 15], 3), block_3_5)"
    by (simp add: work_def block_3_5_def work_loop_general.simps mod_Suc)
  ultimately show ?thesis
    using h1 h2 h3 p by blast
qed

text \<open>
  C4. When the working constant has length 1, the loop of the \<open>vlen == 1\<close> branch, which
  multiplies by \<open>_val[0]\<close>, and the loop of the general branch, which multiplies by
  \<open>_val[i % _val.size()]\<close>, give the same result from every index, for every element
  count and all buffers.
\<close>

theorem vlen1_fast_path_eq_general:
  assumes "length vals = 1"
  shows "work_loop_vlen1 (vals ! 0) i n_nums input_items out =
         work_loop_general vals i n_nums input_items out"
  using assms by (rule work_loop_vlen1_general)

theorem vlen1_fast_path_eq_general_witness:
  "length [3 :: int16_t] = 1 \<and>
   work_loop_vlen1 ([3 :: int16_t] ! 0) 0 4 [1, 2, 3, 4] [0, 0, 0, 0] =
     work_loop_general [3] 0 4 [1, 2, 3, 4] [0, 0, 0, 0] \<and>
   work_loop_general [3 :: int16_t] 0 4 [1, 2, 3, 4] [0, 0, 0, 0] = Inr [3, 6, 9, 12]"
  using vlen1_fast_path_eq_general [of "[3 :: int16_t]" 0 4 "[1, 2, 3, 4]" "[0, 0, 0, 0]"]
  by (simp add: work_loop_general.simps)

text \<open>
  C5. On both paths \<open>work\<close> returns the \<open>noutput_items\<close> it was called with. The block
  has no function bound or one of the two adapters, its constant vector is not empty,
  \<open>noutput_items\<close> is not negative, and the buffers hold the \<open>noutput_items * vlen\<close>
  elements asked for.
\<close>

theorem work_returns_noutput_items:
  fixes this :: "('a::times, 'c) multiply_const_generic"
  assumes "volk_work this = None \<or> volk_work this = Some (mult_fc32_work volk) \<or>
           volk_work this = Some (mult_f32_work volk)"
    and "val this \<noteq> []"
    and "0 \<le>s noutput_items"
    and "nat (sint noutput_items) * length (val this) < 2 ^ 64"
    and "nat (sint noutput_items) * length (val this) \<le> length input_items"
    and "nat (sint noutput_items) * length (val this) \<le> length output_items"
  shows "\<exists>out. fst (work noutput_items input_items output_items this) =
           Inr (out, noutput_items)"
proof (cases "volk_work this")
  case None
  from work_scalar_path [OF None assms(2-6)] show ?thesis
    by auto
next
  case (Some f)
  with assms(1) have "volk_work this = Some (mult_fc32_work volk) \<or>
           volk_work this = Some (mult_f32_work volk)"
    by simp
  from work_accelerated_path [OF this assms(2)] show ?thesis
    by simp
qed

theorem work_returns_noutput_items_witness:
  "(\<exists>out. fst (work 3 [1, 1, 2, 2, 3, 3] [0, 0, 0, 0, 0, 0] block_3_5) = Inr (out, 3)) \<and>
   (\<exists>out. fst (work 2 [Cplx 1 0, Cplx 0 1, Cplx 2 0, Cplx 0 2] [0, 0, 0, 0] block_i_7) =
      Inr (out, 2))"
proof -
  have s: "volk_work block_3_5 = None \<or>
      volk_work block_3_5 = Some (mult_fc32_work volk_multiply_generic) \<or>
      volk_work block_3_5 = Some (mult_f32_work volk_multiply_generic)"
    by (simp add: block_3_5_def)
  have a: "volk_work block_i_7 = None \<or>
      volk_work block_i_7 = Some (mult_fc32_work volk_multiply_generic) \<or>
      volk_work block_i_7 = Some (mult_f32_work volk_multiply_generic)"
    by (simp add: block_i_7_def)
  have ne: "val block_3_5 \<noteq> []" "val block_i_7 \<noteq> []"
    by (simp_all add: block_3_5_def block_i_7_def)
  have nn: "0 \<le>s (3 :: c_int)" "0 \<le>s (2 :: c_int)"
    by (simp_all add: word_sle_eq)
  have p: "nat (sint (3 :: c_int)) * length (val block_3_5) = 6"
    "nat (sint (2 :: c_int)) * length (val block_i_7) = 4"
    by (simp_all add: block_3_5_def block_i_7_def)
  have s1: "nat (sint (3 :: c_int)) * length (val block_3_5) < 2 ^ 64"
    by (simp only: p) simp
  have s2: "nat (sint (3 :: c_int)) * length (val block_3_5) \<le>
      length [1, 1, 2, 2, 3, 3 :: int16_t]"
    by (simp only: p) simp
  have s3: "nat (sint (3 :: c_int)) * length (val block_3_5) \<le>
      length [0, 0, 0, 0, 0, 0 :: int16_t]"
    by (simp only: p) simp
  have a1: "nat (sint (2 :: c_int)) * length (val block_i_7) < 2 ^ 64"
    by (simp only: p) simp
  have a2: "nat (sint (2 :: c_int)) * length (val block_i_7) \<le>
      length [Cplx 1 0, Cplx 0 1, Cplx 2 0, Cplx 0 2 :: int cplx]"
    by (simp only: p) simp
  have a3: "nat (sint (2 :: c_int)) * length (val block_i_7) \<le>
      length [0, 0, 0, 0 :: int cplx]"
    by (simp only: p) simp
  from work_returns_noutput_items [OF s ne(1) nn(1) s1 s2 s3]
       work_returns_noutput_items [OF a ne(2) nn(2) a1 a2 a3]
  show ?thesis
    by (rule conjI)
qed

text \<open>
  C6. After \<open>_set_const\<close> with a sequence \<open>v\<close> of the block's length, which succeeds,
  \<open>get_const\<close> returns \<open>v\<close> itself, whatever the element type and its conversion.
\<close>

theorem set_const_get_const_roundtrip:
  assumes "length v = length (val this)"
  shows "fst (priv_set_const T v this) = Inr () \<and>
         get_const (snd (priv_set_const T v this)) = v"
  using assms by (simp add: priv_set_const_ok get_const_def)

theorem set_const_get_const_roundtrip_witness:
  "length [Cplx 70000 1, Cplx (- 9) 4 :: int cplx] = length (val block_3_5) \<and>
   fst (priv_set_const s16_type [Cplx 70000 1, Cplx (- 9) 4] block_3_5) = Inr () \<and>
   get_const (snd (priv_set_const s16_type [Cplx 70000 1, Cplx (- 9) 4] block_3_5)) =
     [Cplx 70000 1, Cplx (- 9) 4] \<and>
   val (snd (priv_set_const s16_type [Cplx 70000 1, Cplx (- 9) 4] block_3_5)) =
     [4464, - 9]"
proof -
  have h: "length [Cplx 70000 1, Cplx (- 9) 4 :: int cplx] = length (val block_3_5)"
    by (simp add: block_3_5_def)
  have "val (snd (priv_set_const s16_type [Cplx 70000 1, Cplx (- 9) 4] block_3_5)) =
     [4464, - 9]"
    by (simp add: priv_set_const_ok [OF h] s16_type_def)
  with h set_const_get_const_roundtrip [OF h, of s16_type] show ?thesis
    by blast
qed

text \<open>
  C7. The constructor always returns a block. When a function is bound, the block's
  output multiple is \<open>std::max(1, alignment_multiple)\<close>, where \<open>alignment_multiple\<close> is
  the \<open>size_t\<close> quotient of \<open>volk_get_alignment()\<close> by \<open>sizeof(type)\<close> stored in an
  \<open>int\<close>; whenever the quotient is below \<open>2 ^ 31\<close> this is the larger of 1 and the
  quotient. When no function is bound, no output multiple is set.
\<close>

theorem constructor_output_multiple:
  "\<exists>this. new_multiply_const_generic volk_get_alignment T vec vw = Inr this \<and>
     (vw = None \<longrightarrow> output_multiple this = None) \<and>
     (vw \<noteq> None \<longrightarrow>
        (\<exists>m. output_multiple this = Some m \<and>
             m = std_max 1 (ucast (volk_get_alignment div sizeof T)) \<and>
             (unat volk_get_alignment div unat (sizeof T) < 2 ^ 31 \<longrightarrow>
                sint m = max 1 (int (unat volk_get_alignment div unat (sizeof T))))))"
proof -
  let ?q = "volk_get_alignment div sizeof T"
  have "sint (std_max 1 (ucast ?q)) = max 1 (int (unat volk_get_alignment div unat (sizeof T)))"
    if "unat volk_get_alignment div unat (sizeof T) < 2 ^ 31"
  proof -
    from that have "unat ?q < 2 ^ 31"
      by (simp only: unat_div)
    then have "sint (ucast ?q :: c_int) = int (unat ?q)"
      by (rule sint_ucast_small)
    then show ?thesis
      by (simp only: sint_std_max unat_div) simp
  qed
  then show ?thesis
    by (simp add: new_multiply_const_generic_eq)
qed

theorem constructor_output_multiple_witness:
  "(\<exists>this. new_multiply_const_generic 16 s16_type [3, 5] None = Inr this \<and>
      output_multiple this = None) \<and>
   unat (16 :: size_t) div unat (sizeof exact_type) < 2 ^ 31 \<and>
   (\<exists>this m. new_multiply_const_generic 16 exact_type [Cplx 0 1]
        (Some (mult_fc32_work volk_multiply_generic)) = Inr this \<and>
      output_multiple this = Some m \<and> m = 2 \<and>
      sint m = max 1 (int (unat (16 :: size_t) div unat (sizeof exact_type)))) \<and>
   (\<exists>this. new_multiply_const_generic 4 exact_type [Cplx 0 1]
        (Some (mult_fc32_work volk_multiply_generic)) = Inr this \<and>
      output_multiple this = Some 1)"
proof -
  let ?vw = "Some (mult_fc32_work (volk_multiply_generic :: int cplx volk_kernel))"
  have a: "(16 :: size_t) div sizeof exact_type = 2"
    by (simp add: exact_type_def)
  have b: "(4 :: size_t) div sizeof exact_type = 0"
    by (simp add: exact_type_def)
  have c: "std_max 1 (ucast (2 :: size_t)) = 2" "std_max 1 (ucast (0 :: size_t)) = 1"
    by (simp_all add: std_max_def word_sless_alt)
  have q: "unat (16 :: size_t) div unat (sizeof exact_type) < 2 ^ 31"
    by (simp add: exact_type_def)
  have bound: "?vw \<noteq> None"
    by simp
  from constructor_output_multiple [of 16 s16_type "[3, 5]" None]
  have 1: "\<exists>this. new_multiply_const_generic 16 s16_type [3, 5] None = Inr this \<and>
      output_multiple this = None"
    by auto
  from constructor_output_multiple [of 16 exact_type "[Cplx 0 1]" ?vw] bound q
  have 2: "\<exists>this m. new_multiply_const_generic 16 exact_type [Cplx 0 1] ?vw = Inr this \<and>
      output_multiple this = Some m \<and> m = 2 \<and>
      sint m = max 1 (int (unat (16 :: size_t) div unat (sizeof exact_type)))"
    by (simp only: a c) blast
  from constructor_output_multiple [of 4 exact_type "[Cplx 0 1]" ?vw] bound
  have 3: "\<exists>this. new_multiply_const_generic 4 exact_type [Cplx 0 1] ?vw = Inr this \<and>
      output_multiple this = Some 1"
    by (simp only: b c) blast
  from 1 q 2 3 show ?thesis
    by blast
qed

text \<open>
  C8. Take a block with one of the two adapters bound and a block on the scalar path,
  both with the single working constant \<open>c\<close>, the same non-negative \<open>noutput_items\<close>
  and the same buffers of at least \<open>noutput_items\<close> elements. If the external routine
  multiplies each of its first \<open>num_points\<close> input elements by the scalar, both calls
  of \<open>work\<close> return \<open>noutput_items\<close>, the scalar block runs the \<open>vlen == 1\<close> loop, and
  the two output buffers agree at every index below \<open>noutput_items\<close>, where both hold
  the input element times \<open>c\<close>.
\<close>

theorem accelerated_path_eq_scalar_vlen1:
  fixes accelerated scalar :: "('a::times, 'c) multiply_const_generic"
  assumes "volk_work accelerated = Some (mult_fc32_work volk) \<or>
           volk_work accelerated = Some (mult_f32_work volk)"
    and "volk_work scalar = None"
    and "val accelerated = [c]"
    and "val scalar = [c]"
    and "0 \<le>s noutput_items"
    and "nat (sint noutput_items) \<le> length input_items"
    and "nat (sint noutput_items) \<le> length output_items"
    and "\<forall>out inp s m k. k < unat m \<and> unat m \<le> length inp \<and> unat m \<le> length out \<longrightarrow>
           volk out inp s m ! k = inp ! k * s"
  shows "\<exists>out_accelerated out_scalar.
           work noutput_items input_items output_items accelerated =
             (Inr (out_accelerated, noutput_items), accelerated) \<and>
           work noutput_items input_items output_items scalar =
             (Inr (out_scalar, noutput_items), scalar) \<and>
           work_loop_vlen1 c 0 (nat (sint noutput_items)) input_items output_items =
             Inr out_scalar \<and>
           (\<forall>k < nat (sint noutput_items).
              out_accelerated ! k = out_scalar ! k \<and> out_scalar ! k = input_items ! k * c)"
proof -
  let ?n = "nat (sint noutput_items)"
  let ?num_points = "ucast (n_nums_of noutput_items (val accelerated)) :: 32 word"
  let ?out = "volk output_items input_items c ?num_points"
  have "?n * length (val accelerated) < 2 ^ 31"
    using nat_sint_lt_int_max [of noutput_items] by (simp only: assms(3)) simp
  with assms(5) have "unat ?num_points = ?n * length (val accelerated)"
    by (rule unat_count)
  then have count: "unat ?num_points = ?n"
    by (simp only: assms(3)) simp
  have "val accelerated \<noteq> []"
    by (simp add: assms(3))
  with assms(1) have "work noutput_items input_items output_items accelerated =
      (Inr (volk output_items input_items (val accelerated ! 0) ?num_points, noutput_items),
       accelerated)"
    by (rule work_accelerated_path)
  then have run: "work noutput_items input_items output_items accelerated =
      (Inr (?out, noutput_items), accelerated)"
    by (simp add: assms(3))
  have acc: "?out ! k = input_items ! k * c" if "k < ?n" for k
  proof -
    have "k < unat ?num_points \<and> unat ?num_points \<le> length input_items \<and>
          unat ?num_points \<le> length output_items"
      using that assms(6,7) by (simp only: count)
    with assms(8) show ?thesis
      by blast
  qed
  obtain out where
    fast: "work_loop_vlen1 c 0 ?n input_items output_items = Inr out" and
    srun: "work noutput_items input_items output_items scalar =
             (Inr (out, noutput_items), scalar)" and
    snth: "\<forall>k < ?n. out ! k = input_items ! k * c"
    using work_scalar_vlen1 [OF assms(2,4,5,6,7)] by blast
  have "\<forall>k < ?n. ?out ! k = out ! k \<and> out ! k = input_items ! k * c"
    using acc snth by simp
  with run srun fast show ?thesis
    by blast
qed

theorem accelerated_path_eq_scalar_vlen1_witness:
  "volk_work block_i_accelerated = Some (mult_fc32_work volk_multiply_generic) \<and>
   volk_work block_i_scalar = None \<and>
   val block_i_accelerated = [Cplx 0 1] \<and> val block_i_scalar = [Cplx 0 1] \<and>
   0 \<le>s (2 :: c_int) \<and> nat (sint (2 :: c_int)) = 2 \<and>
   (\<exists>out_accelerated out_scalar.
      work 2 [Cplx 1 0, Cplx 0 1] [0, 0] block_i_accelerated =
        (Inr (out_accelerated, 2), block_i_accelerated) \<and>
      work 2 [Cplx 1 0, Cplx 0 1] [0, 0] block_i_scalar =
        (Inr (out_scalar, 2), block_i_scalar) \<and>
      work_loop_vlen1 (Cplx 0 1) 0 2 [Cplx 1 0, Cplx 0 1] [0, 0] = Inr out_scalar \<and>
      out_scalar = [Cplx 0 1, Cplx (- 1) 0] \<and>
      (\<forall>k < 2. out_accelerated ! k = out_scalar ! k \<and>
         out_scalar ! k = [Cplx 1 0, Cplx 0 1] ! k * Cplx 0 1))"
proof -
  let ?inp = "[Cplx 1 0, Cplx 0 1 :: int cplx]"
  let ?outp = "[0, 0 :: int cplx]"
  have h1: "volk_work block_i_accelerated = Some (mult_fc32_work volk_multiply_generic)"
    by (simp add: block_i_accelerated_def)
  then have h1': "volk_work block_i_accelerated = Some (mult_fc32_work volk_multiply_generic) \<or>
      volk_work block_i_accelerated = Some (mult_f32_work volk_multiply_generic)"
    by (rule disjI1)
  have h2: "volk_work block_i_scalar = None"
    by (simp add: block_i_scalar_def)
  have h3: "val block_i_accelerated = [Cplx 0 1]"
    by (simp add: block_i_accelerated_def)
  have h4: "val block_i_scalar = [Cplx 0 1]"
    by (simp add: block_i_scalar_def)
  have h5: "0 \<le>s (2 :: c_int)"
    by (simp add: word_sle_eq)
  have p: "nat (sint (2 :: c_int)) = 2"
    by simp
  have h6: "nat (sint (2 :: c_int)) \<le> length ?inp"
    by simp
  have h7: "nat (sint (2 :: c_int)) \<le> length ?outp"
    by simp
  have h8: "\<forall>out inp (s :: int cplx) m k.
      k < unat m \<and> unat m \<le> length inp \<and> unat m \<le> length out \<longrightarrow>
      volk_multiply_generic out inp s m ! k = inp ! k * s"
    by (simp add: volk_multiply_generic_nth)
  from accelerated_path_eq_scalar_vlen1 [OF h1' h2 h3 h4 h5 h6 h7 h8]
  obtain out_accelerated out_scalar where
    a: "work 2 ?inp ?outp block_i_accelerated =
          (Inr (out_accelerated, 2), block_i_accelerated)" and
    s: "work 2 ?inp ?outp block_i_scalar = (Inr (out_scalar, 2), block_i_scalar)" and
    l: "work_loop_vlen1 (Cplx 0 1) 0 (nat (sint (2 :: c_int))) ?inp ?outp = Inr out_scalar" and
    e: "\<forall>k < nat (sint (2 :: c_int)).
          out_accelerated ! k = out_scalar ! k \<and> out_scalar ! k = ?inp ! k * Cplx 0 1"
    by blast
  have l2: "work_loop_vlen1 (Cplx 0 1) 0 2 ?inp ?outp = Inr out_scalar"
    using l by (simp only: p)
  have e2: "\<forall>k < 2. out_accelerated ! k = out_scalar ! k \<and>
      out_scalar ! k = ?inp ! k * Cplx 0 1"
    using e by (simp only: p)
  have "work_loop_vlen1 (Cplx 0 1 :: int cplx) 0 2 ?inp ?outp = Inr [Cplx 0 1, Cplx (- 1) 0]"
    by (simp add: work_loop_vlen1.simps times_cplx_def)
  with l2 have v: "out_scalar = [Cplx 0 1, Cplx (- 1) 0]"
    by simp
  show ?thesis
    using h1 h2 h3 h4 h5 p a s l2 v e2 by blast
qed

text \<open>
  C9. \<open>work\<close> leaves the block as it found it: the canonical constant vector, the
  working constant, the bound function and with them \<open>vlen\<close> are unchanged, so
  \<open>get_const\<close> returns the same value before and after. A block with no function
  bound or with one of the two adapters never gets \<open>std::invalid_argument\<close> from
  \<open>work\<close>.
\<close>

theorem work_leaves_block_unchanged:
  fixes this :: "('a::times, 'c) multiply_const_generic"
  assumes "volk_work this = None \<or> volk_work this = Some (mult_fc32_work volk) \<or>
           volk_work this = Some (mult_f32_work volk)"
  shows "snd (work noutput_items input_items output_items this) = this \<and>
         get_const (snd (work noutput_items input_items output_items this)) = get_const this \<and>
         val (snd (work noutput_items input_items output_items this)) = val this \<and>
         volk_work (snd (work noutput_items input_items output_items this)) = volk_work this \<and>
         (\<forall>msg. fst (work noutput_items input_items output_items this) \<noteq>
                  Inl (Invalid_argument msg))"
  using work_no_invalid_argument [OF assms] by (simp add: snd_work)

theorem work_leaves_block_unchanged_witness:
  "snd (work 3 [1, 1, 2, 2, 3, 3] [0, 0, 0, 0, 0, 0] block_3_5) = block_3_5 \<and>
   get_const (snd (work 3 [1, 1, 2, 2, 3, 3] [0, 0, 0, 0, 0, 0] block_3_5)) =
     [Cplx 3 0, Cplx 5 0] \<and>
   (\<forall>msg. fst (work 3 [1, 1, 2, 2, 3, 3] [0, 0, 0, 0, 0, 0] block_3_5) \<noteq>
            Inl (Invalid_argument msg)) \<and>
   snd (work 3 [1, 1] [0] block_3_5) = block_3_5 \<and>
   fst (work 3 [1, 1] [0] block_3_5) = Inl Undefined_behaviour"
proof -
  have s: "volk_work block_3_5 = None \<or>
      volk_work block_3_5 = Some (mult_fc32_work volk_multiply_generic) \<or>
      volk_work block_3_5 = Some (mult_f32_work volk_multiply_generic)"
    by (simp add: block_3_5_def)
  have g: "get_const block_3_5 = [Cplx 3 0, Cplx 5 0]"
    by (simp add: get_const_def block_3_5_def)
  have n: "unat (n_nums_of (3 :: c_int) [3, 5 :: int16_t]) = 6"
    by (simp add: n_nums_of_def)
  have u: "fst (work 3 [1, 1] [0] block_3_5) = Inl Undefined_behaviour"
    by (simp add: work_def block_3_5_def n work_loop_general.simps)
  from work_leaves_block_unchanged [OF s, of 3 "[1, 1, 2, 2, 3, 3]" "[0, 0, 0, 0, 0, 0]"]
       work_leaves_block_unchanged [OF s, of 3 "[1, 1]" "[0]"] u
  show ?thesis
    by (simp only: g) simp
qed

text \<open>
  C10. A block with one of the two adapters bound and \<open>vlen > 1\<close>, called with a
  non-negative \<open>noutput_items\<close> whose product with \<open>vlen\<close> fits an \<open>int\<close>, hands the
  external routine the element count \<open>noutput_items * vlen\<close> and the working constant
  at position 0 alone. The result of \<open>work\<close> is the same for every block that agrees
  on the bound function, on \<open>vlen\<close> and on the constant at position 0. If the routine
  multiplies each of its first \<open>num_points\<close> input elements by the scalar, and the
  buffers hold \<open>noutput_items * vlen\<close> elements, every flattened output element is the
  input element times the constant at position 0.
\<close>

theorem accelerated_path_uses_first_constant:
  fixes this :: "('a::times, 'c) multiply_const_generic"
  assumes "volk_work this = Some (mult_fc32_work volk) \<or>
           volk_work this = Some (mult_f32_work volk)"
    and "1 < length (val this)"
    and "0 \<le>s noutput_items"
    and "nat (sint noutput_items) * length (val this) < 2 ^ 31"
  shows "\<exists>num_points.
           unat num_points = nat (sint noutput_items) * length (val this) \<and>
           work noutput_items input_items output_items this =
             (Inr (volk output_items input_items (val this ! 0) num_points, noutput_items),
              this) \<and>
           (\<forall>other :: ('a, 'c) multiply_const_generic.
              volk_work other = volk_work this \<and> length (val other) = length (val this) \<and>
              val other ! 0 = val this ! 0 \<longrightarrow>
              fst (work noutput_items input_items output_items other) =
              fst (work noutput_items input_items output_items this)) \<and>
           ((\<forall>out inp s m k. k < unat m \<and> unat m \<le> length inp \<and> unat m \<le> length out \<longrightarrow>
                volk out inp s m ! k = inp ! k * s) \<and>
            nat (sint noutput_items) * length (val this) \<le> length input_items \<and>
            nat (sint noutput_items) * length (val this) \<le> length output_items \<longrightarrow>
            (\<forall>k < nat (sint noutput_items) * length (val this).
               volk output_items input_items (val this ! 0) num_points ! k =
               input_items ! k * val this ! 0))"
proof -
  let ?num_points = "ucast (n_nums_of noutput_items (val this)) :: 32 word"
  have ne: "val this \<noteq> []"
    using assms(2) by auto
  have count: "unat ?num_points = nat (sint noutput_items) * length (val this)"
    using assms(3,4) by (rule unat_count)
  have run: "work noutput_items input_items output_items this =
      (Inr (volk output_items input_items (val this ! 0) ?num_points, noutput_items), this)"
    using assms(1) ne by (rule work_accelerated_path)
  have indep: "fst (work noutput_items input_items output_items other) =
               fst (work noutput_items input_items output_items this)"
    if o: "volk_work other = volk_work this \<and> length (val other) = length (val this) \<and>
        val other ! 0 = val this ! 0"
    for other :: "('a, 'c) multiply_const_generic"
  proof -
    have k: "volk_work other = Some (mult_fc32_work volk) \<or>
             volk_work other = Some (mult_f32_work volk)"
      using assms(1) o by simp
    have "val other \<noteq> []"
      using assms(2) o by auto
    with k have "work noutput_items input_items output_items other =
      (Inr (volk output_items input_items (val other ! 0)
         (ucast (n_nums_of noutput_items (val other))), noutput_items), other)"
      by (rule work_accelerated_path)
    then show ?thesis
      using o by (simp add: run n_nums_of_def)
  qed
  have elems: "volk output_items input_items (val this ! 0) ?num_points ! k =
               input_items ! k * val this ! 0"
    if c: "\<forall>out inp s m k. k < unat m \<and> unat m \<le> length inp \<and> unat m \<le> length out \<longrightarrow>
                volk out inp s m ! k = inp ! k * s"
      and b: "nat (sint noutput_items) * length (val this) \<le> length input_items"
        "nat (sint noutput_items) * length (val this) \<le> length output_items"
      and k: "k < nat (sint noutput_items) * length (val this)"
    for k
  proof -
    have "k < unat ?num_points \<and> unat ?num_points \<le> length input_items \<and>
          unat ?num_points \<le> length output_items"
      using b k by (simp only: count)
    with c show ?thesis
      by blast
  qed
  show ?thesis
    using count run indep elems by blast
qed

theorem accelerated_path_uses_first_constant_witness:
  "volk_work block_i_7 = Some (mult_fc32_work volk_multiply_generic) \<and>
   1 < length (val block_i_7) \<and> 0 \<le>s (2 :: c_int) \<and>
   nat (sint (2 :: c_int)) * length (val block_i_7) = 4 \<and>
   (\<exists>out. work 2 [Cplx 1 0, Cplx 0 1, Cplx 2 0, Cplx 0 2] [0, 0, 0, 0] block_i_7 =
            (Inr (out, 2), block_i_7) \<and>
          out = [Cplx 0 1, Cplx (- 1) 0, Cplx 0 2, Cplx (- 2) 0] \<and>
          (\<forall>k < 4. out ! k = [Cplx 1 0, Cplx 0 1, Cplx 2 0, Cplx 0 2] ! k * Cplx 0 1))"
proof -
  let ?inp = "[Cplx 1 0, Cplx 0 1, Cplx 2 0, Cplx 0 2 :: int cplx]"
  let ?outp = "[0, 0, 0, 0 :: int cplx]"
  have h1: "volk_work block_i_7 = Some (mult_fc32_work volk_multiply_generic)"
    by (simp add: block_i_7_def)
  then have h1': "volk_work block_i_7 = Some (mult_fc32_work volk_multiply_generic) \<or>
      volk_work block_i_7 = Some (mult_f32_work volk_multiply_generic)"
    by (rule disjI1)
  have h2: "1 < length (val block_i_7)"
    by (simp add: block_i_7_def)
  have h3: "0 \<le>s (2 :: c_int)"
    by (simp add: word_sle_eq)
  have p: "nat (sint (2 :: c_int)) * length (val block_i_7) = 4"
    by (simp add: block_i_7_def)
  have h4: "nat (sint (2 :: c_int)) * length (val block_i_7) < 2 ^ 31"
    by (simp only: p) simp
  have v0: "val block_i_7 ! 0 = Cplx 0 1"
    by (simp add: block_i_7_def)
  have contract: "\<forall>out inp (s :: int cplx) m k.
      k < unat m \<and> unat m \<le> length inp \<and> unat m \<le> length out \<longrightarrow>
      volk_multiply_generic out inp s m ! k = inp ! k * s"
    by (simp add: volk_multiply_generic_nth)
  have b: "nat (sint (2 :: c_int)) * length (val block_i_7) \<le> length ?inp"
    "nat (sint (2 :: c_int)) * length (val block_i_7) \<le> length ?outp"
    by (simp_all only: p) simp_all
  from accelerated_path_uses_first_constant [OF h1' h2 h3 h4,
      where input_items = ?inp and output_items = ?outp]
  obtain num_points where
    n: "unat num_points = nat (sint (2 :: c_int)) * length (val block_i_7)" and
    run: "work 2 ?inp ?outp block_i_7 =
      (Inr (volk_multiply_generic ?outp ?inp (val block_i_7 ! 0) num_points, 2), block_i_7)" and
    elems: "(\<forall>out inp (s :: int cplx) m k. k < unat m \<and> unat m \<le> length inp \<and> unat m \<le> length out \<longrightarrow>
                volk_multiply_generic out inp s m ! k = inp ! k * s) \<and>
            nat (sint (2 :: c_int)) * length (val block_i_7) \<le> length ?inp \<and>
            nat (sint (2 :: c_int)) * length (val block_i_7) \<le> length ?outp \<longrightarrow>
            (\<forall>k < nat (sint (2 :: c_int)) * length (val block_i_7).
               volk_multiply_generic ?outp ?inp (val block_i_7 ! 0) num_points ! k =
               ?inp ! k * val block_i_7 ! 0)"
    by blast
  have n4: "unat num_points = 4"
    using n by (simp only: p)
  have e: "\<forall>k < 4. volk_multiply_generic ?outp ?inp (val block_i_7 ! 0) num_points ! k =
               ?inp ! k * Cplx 0 1"
    using elems contract b by (simp only: p v0) blast
  have v: "volk_multiply_generic ?outp ?inp (val block_i_7 ! 0) num_points =
      [Cplx 0 1, Cplx (- 1) 0, Cplx 0 2, Cplx (- 2) 0]"
    by (simp add: volk_multiply_generic_def n4 v0 times_cplx_def)
  show ?thesis
    using h1 h2 h3 p run e v by simp
qed

end
